theory Spec2Isabelle
  imports Complex_Main "HOL-Library.Sublist"
begin

section \<open>The item store of \<^verbatim>\<open>main.py\<close>\<close>

text \<open>
  The service keeps a module-level list \<^verbatim>\<open>items_db\<close> of \<^verbatim>\<open>Item\<close> objects and exposes five
  handlers on it. Each handler is modelled as a function that takes the list and returns
  its outcome together with the list afterwards; an exception is the \<open>Inl\<close> branch of the
  outcome, and the list is then the one at the moment the exception was raised.
\<close>

subsection \<open>Data model\<close>

text \<open>
  \<^verbatim>\<open>class Item(BaseModel)\<close>: \<^verbatim>\<open>id: Optional[int] = None\<close>, \<^verbatim>\<open>name: str\<close>,
  \<^verbatim>\<open>description: Optional[str] = None\<close>, \<^verbatim>\<open>price: float\<close>, \<^verbatim>\<open>in_stock: bool = True\<close>.
  Python integers are unbounded, hence \<open>int\<close>. No handler computes with or compares the
  price, so it is carried as a \<open>real\<close>. The field \<^verbatim>\<open>id\<close> is written \<open>id'\<close>, since \<open>id\<close> is
  the identity function of HOL.
\<close>

record Item =
  id' :: "int option"
  name :: string
  description :: "string option"
  price :: real
  in_stock :: bool

type_synonym store = "Item list"

text \<open>
  The exceptions that can leave a handler: \<^verbatim>\<open>HTTPException(status_code, detail)\<close>, the
  validation failure of the request body (answered with status 422 by the framework), and
  the \<^verbatim>\<open>ValueError\<close> that the builtin \<^verbatim>\<open>max\<close> raises on an empty sequence.
\<close>

datatype error =
  HTTPException nat string
  | RequestValidationError
  | ValueError

text \<open>
  The detail text \<^verbatim>\<open>"Item non trouv\<close>\<open>\<dots>\<close>\<^verbatim>\<open>"\<close> ends in an e with acute accent, given
  here by the two bytes of its UTF-8 encoding.
\<close>

definition detail_not_found :: string where
  "detail_not_found = ''Item non trouv'' @ [CHR 0xC3, CHR 0xA9]"

definition NotFound :: error where
  "NotFound = HTTPException 404 detail_not_found"

text \<open>The three seed records of \<^verbatim>\<open>items_db\<close>.\<close>

definition items_db :: store where
  "items_db =
    [\<lparr>id' = Some 1, name = ''Laptop'', description = Some ''Un ordinateur portable'',
      price = 999.99, in_stock = True\<rparr>,
     \<lparr>id' = Some 2, name = ''Mouse'', description = Some ''Une souris sans fil'',
      price = 29.99, in_stock = True\<rparr>,
     \<lparr>id' = Some 3, name = ''Keyboard'',
      description = Some (''Un clavier m'' @ [CHR 0xC3, CHR 0xA9] @ ''canique''),
      price = 149.99, in_stock = False\<rparr>]"

subsection \<open>Request bodies\<close>

text \<open>
  A JSON body for \<^verbatim>\<open>Item\<close> with well-typed fields, each of which may be left out
  (\<open>None\<close>). Building the \<^verbatim>\<open>Item\<close> fails when \<^verbatim>\<open>name\<close> or \<^verbatim>\<open>price\<close> is missing and fills
  in the declared defaults for the others.
\<close>

record ItemPayload =
  p_id :: "int option"
  p_name :: "string option"
  p_description :: "string option"
  p_price :: "real option"
  p_in_stock :: "bool option"

definition validate_Item :: "ItemPayload \<Rightarrow> error + Item" where
  "validate_Item p =
    (case p_name p of
       None \<Rightarrow> Inl RequestValidationError
     | Some n \<Rightarrow>
        (case p_price p of
           None \<Rightarrow> Inl RequestValidationError
         | Some pr \<Rightarrow>
            Inr \<lparr>id' = p_id p, name = n, description = p_description p, price = pr,
                 in_stock = (case p_in_stock p of None \<Rightarrow> True | Some b \<Rightarrow> b)\<rparr>))"

subsection \<open>Python builtins used by the handlers\<close>

text \<open>Truth value of an \<^verbatim>\<open>Optional[int]\<close>: \<^verbatim>\<open>None\<close> and \<^verbatim>\<open>0\<close> are false.\<close>

fun truthy :: "int option \<Rightarrow> bool" where
  "truthy None = False"
| "truthy (Some n) = (n \<noteq> 0)"

text \<open>\<^verbatim>\<open>max(xs)\<close> raises \<^verbatim>\<open>ValueError\<close> on an empty list.\<close>

fun py_max :: "int list \<Rightarrow> error + int" where
  "py_max [] = Inl ValueError"
| "py_max (x # xs) = Inr (fold max xs x)"

text \<open>\<^verbatim>\<open>xs.pop(idx)\<close> for an index in range: the list without its element at \<open>idx\<close>.\<close>

definition pop :: "'a list \<Rightarrow> nat \<Rightarrow> 'a list" where
  "pop xs idx = take idx xs @ drop (Suc idx) xs"

text \<open>\<^verbatim>\<open>str(n)\<close> for an integer, as the f-string of the delete handler formats it.\<close>

function str_nat :: "nat \<Rightarrow> string" where
  "str_nat n =
    (if n < 10 then [char_of (48 + n)]
     else str_nat (n div 10) @ [char_of (48 + n mod 10)])"
  by pat_completeness auto
termination
  by (relation "measure (\<lambda>n. n)") auto

definition str_int :: "int \<Rightarrow> string" where
  "str_int i = (if i < 0 then ''-'' @ str_nat (nat (- i)) else str_nat (nat i))"

subsection \<open>The handlers\<close>

text \<open>
  \<^verbatim>\<open>get_items\<close>: the list itself when no filter is given, otherwise the comprehension
  \<^verbatim>\<open>[item for item in items_db if item.in_stock == in_stock]\<close>, which runs through the
  list and appends each item that passes the test.
\<close>

fun comprehension :: "('a \<Rightarrow> bool) \<Rightarrow> 'a list \<Rightarrow> 'a list \<Rightarrow> 'a list" where
  "comprehension c [] acc = acc"
| "comprehension c (x # xs) acc = comprehension c xs (if c x then acc @ [x] else acc)"

definition get_items :: "store \<Rightarrow> bool option \<Rightarrow> (error + Item list) \<times> store" where
  "get_items db flt =
    (case flt of
       None \<Rightarrow> (Inr db, db)
     | Some b \<Rightarrow> (Inr (comprehension (\<lambda>item. in_stock item = b) db []), db))"

text \<open>
  The loop \<^verbatim>\<open>for idx, item in enumerate(items_db): if item.id == item_id: ...\<close> shared
  by the handlers that look an item up: the index of the first item whose id equals
  \<open>item_id\<close>, counting from \<open>idx\<close>. An item whose id is \<^verbatim>\<open>None\<close> never matches.
\<close>

fun find_idx :: "Item list \<Rightarrow> int \<Rightarrow> nat \<Rightarrow> nat option" where
  "find_idx [] item_id idx = None"
| "find_idx (item # rest) item_id idx =
    (if id' item = Some item_id then Some idx else find_idx rest item_id (Suc idx))"

fun get_item_loop :: "Item list \<Rightarrow> int \<Rightarrow> Item option" where
  "get_item_loop [] item_id = None"
| "get_item_loop (item # rest) item_id =
    (if id' item = Some item_id then Some item else get_item_loop rest item_id)"

definition get_item :: "store \<Rightarrow> int \<Rightarrow> (error + Item) \<times> store" where
  "get_item db item_id =
    (case get_item_loop db item_id of
       Some item \<Rightarrow> (Inr item, db)
     | None \<Rightarrow> (Inl (HTTPException 404 detail_not_found), db))"

text \<open>
  \<^verbatim>\<open>new_id = max([i.id for i in items_db if i.id]) + 1 if items_db else 1\<close>: the
  conditional expression binds weaker than \<open>+\<close>, the comprehension keeps the ids that
  are truthy.
\<close>

definition new_id :: "store \<Rightarrow> error + int" where
  "new_id db =
    (if db \<noteq> [] then
       (case py_max (List.map_filter (\<lambda>i. if truthy (id' i) then id' i else None) db) of
          Inl e \<Rightarrow> Inl e
        | Inr m \<Rightarrow> Inr (m + 1))
     else Inr 1)"

definition create_item :: "store \<Rightarrow> Item \<Rightarrow> (error + Item) \<times> store" where
  "create_item db item =
    (case new_id db of
       Inl e \<Rightarrow> (Inl e, db)
     | Inr n \<Rightarrow> (let item' = item\<lparr>id' := Some n\<rparr> in (Inr item', db @ [item'])))"

definition update_item :: "store \<Rightarrow> int \<Rightarrow> Item \<Rightarrow> (error + Item) \<times> store" where
  "update_item db item_id updated_item =
    (case find_idx db item_id 0 of
       Some idx \<Rightarrow>
        (let updated_item' = updated_item\<lparr>id' := Some item_id\<rparr>
         in (Inr updated_item', db[idx := updated_item']))
     | None \<Rightarrow> (Inl (HTTPException 404 detail_not_found), db))"

definition delete_message :: "int \<Rightarrow> string" where
  "delete_message item_id =
    ''Item '' @ str_int item_id @ '' supprim'' @ [CHR 0xC3, CHR 0xA9] @ '' avec succ''
      @ [CHR 0xC3, CHR 0xA8] @ ''s''"

definition delete_item :: "store \<Rightarrow> int \<Rightarrow> (error + string) \<times> store" where
  "delete_item db item_id =
    (case find_idx db item_id 0 of
       Some idx \<Rightarrow> (Inr (delete_message item_id), pop db idx)
     | None \<Rightarrow> (Inl (HTTPException 404 detail_not_found), db))"

subsection \<open>Requests against the store\<close>

text \<open>
  One request of the items API and its answer. The framework builds the \<^verbatim>\<open>Item\<close> from
  the body before it calls \<^verbatim>\<open>create_item\<close> or \<^verbatim>\<open>update_item\<close>; a body that does not
  validate never reaches the handler.
\<close>

datatype request =
  List "bool option"
  | Get int
  | Create ItemPayload
  | Update int ItemPayload
  | Delete int

datatype response =
  Items "Item list"
  | OneItem Item
  | Message string

fun answer :: "('a \<Rightarrow> response) \<Rightarrow> (error + 'a) \<times> store \<Rightarrow> (error + response) \<times> store" where
  "answer f (Inl e, db) = (Inl e, db)"
| "answer f (Inr v, db) = (Inr (f v), db)"

fun handle :: "store \<Rightarrow> request \<Rightarrow> (error + response) \<times> store" where
  "handle db (List flt) = answer Items (get_items db flt)"
| "handle db (Get item_id) = answer OneItem (get_item db item_id)"
| "handle db (Create body) =
    (case validate_Item body of
       Inl e \<Rightarrow> (Inl e, db)
     | Inr item \<Rightarrow> answer OneItem (create_item db item))"
| "handle db (Update item_id body) =
    (case validate_Item body of
       Inl e \<Rightarrow> (Inl e, db)
     | Inr item \<Rightarrow> answer OneItem (update_item db item_id item))"
| "handle db (Delete item_id) = answer Message (delete_item db item_id)"

text \<open>The store after a sequence of requests, whatever their answers.\<close>

fun run :: "store \<Rightarrow> request list \<Rightarrow> store" where
  "run db [] = db"
| "run db (r # rs) = run (snd (handle db r)) rs"

text \<open>The invariant of the store: every item has an id, and no two items share one.\<close>

definition store_inv :: "store \<Rightarrow> bool" where
  "store_inv db \<longleftrightarrow> list_all (\<lambda>i. id' i \<noteq> None) db \<and> distinct (map id' db)"

text \<open>
  The ids the store actually produces are positive: a strengthening of the invariant that
  is kept by every request.
\<close>

definition pos_inv :: "store \<Rightarrow> bool" where
  "pos_inv db \<longleftrightarrow>
     list_all (\<lambda>i. case id' i of None \<Rightarrow> False | Some n \<Rightarrow> 0 < n) db \<and> distinct (map id' db)"



subsection \<open>Concrete items and bodies\<close>



definition monitor_body :: ItemPayload where
  "monitor_body = \<lparr>p_id = None, p_name = Some ''Monitor'', p_description = None,
                   p_price = Some 399.99, p_in_stock = None\<rparr>"

definition keyboard_body :: ItemPayload where
  "keyboard_body = \<lparr>p_id = Some 9, p_name = Some ''Keyboard'', p_description = None,
                    p_price = Some 120, p_in_stock = None\<rparr>"

definition ghost_item :: Item where
  "ghost_item = \<lparr>id' = Some 77, name = ''Ghost Item'', description = None, price = 99.99,
                 in_stock = True\<rparr>"

section \<open>Properties of the loops and builtins\<close>

lemma comprehension_filter: "comprehension c xs acc = acc @ filter c xs"
  by (induction xs arbitrary: acc) auto

lemma find_idx_None: "find_idx db i k = None \<longleftrightarrow> (\<forall>it \<in> set db. id' it \<noteq> Some i)"
  by (induction db arbitrary: k) auto

lemma find_idx_Some:
  "find_idx db i k = Some n \<Longrightarrow>
     k \<le> n \<and> n - k < length db \<and> id' (db ! (n - k)) = Some i
     \<and> (\<forall>j < n - k. id' (db ! j) \<noteq> Some i)"
proof (induction db arbitrary: k)
  case Nil
  then show ?case by simp
next
  case (Cons a db)
  show ?case
  proof (cases "id' a = Some i")
    case True
    with Cons.prems show ?thesis by simp
  next
    case False
    with Cons.prems have f: "find_idx db i (Suc k) = Some n" by simp
    from Cons.IH [OF f] have ih: "Suc k \<le> n" "n - Suc k < length db"
      "id' (db ! (n - Suc k)) = Some i" "\<forall>j < n - Suc k. id' (db ! j) \<noteq> Some i"
      by auto
    from ih(1) have e: "n - k = Suc (n - Suc k)" by simp
    show ?thesis using ih False unfolding e by (auto simp: nth_Cons split: nat.splits)
  qed
qed

lemma find_idx_0:
  "find_idx db i 0 = Some n \<Longrightarrow>
     n < length db \<and> id' (db ! n) = Some i \<and> (\<forall>j < n. id' (db ! j) \<noteq> Some i)"
  using find_idx_Some [of db i 0 n] by simp

lemma find_idx_present:
  assumes "\<exists>item \<in> set db. id' item = Some i"
  obtains n where "find_idx db i 0 = Some n"
  using assms find_idx_None [of db i 0] by (cases "find_idx db i 0") auto

lemma get_item_loop_None:
  "get_item_loop db i = None \<longleftrightarrow> (\<forall>it \<in> set db. id' it \<noteq> Some i)"
  by (induction db) auto


lemma py_max_Inr:
  assumes "xs \<noteq> []"
  shows "py_max xs = Inr (Max (set xs))"
proof -
  from assms obtain y ys where xs: "xs = y # ys" by (cases xs) auto
  show ?thesis unfolding xs using Max.set_eq_fold [of y ys] by simp
qed

lemma map_filter_truthy:
  assumes "\<forall>it \<in> set db. truthy (id' it)"
  shows "map Some (List.map_filter (\<lambda>i. if truthy (id' i) then id' i else None) db) = map id' db"
  using assms
proof (induction db)
  case Nil
  show ?case by simp
next
  case (Cons a db)
  from Cons.prems obtain n where n: "id' a = Some n" "n \<noteq> 0"
    by (cases "id' a") auto
  with Cons show ?case by simp
qed

lemma snd_answer: "snd (answer f r) = snd r"
  by (cases "(f, r)" rule: answer.cases) auto

section \<open>Id generation\<close>

lemma new_id_empty: "new_id [] = Inr 1"
  by (simp add: new_id_def)

text \<open>
  On a store that is not empty and whose ids are all truthy (neither \<^verbatim>\<open>None\<close> nor \<^verbatim>\<open>0\<close>),
  the new id is the greatest stored id plus one.
\<close>

lemma new_id_truthy:
  assumes ne: "db \<noteq> []" and tr: "\<forall>it \<in> set db. truthy (id' it)"
  shows "\<exists>m. new_id db = Inr (m + 1) \<and> Some m \<in> set (map id' db)
            \<and> (\<forall>k. Some k \<in> set (map id' db) \<longrightarrow> k \<le> m)"
proof -
  let ?ids = "List.map_filter (\<lambda>i. if truthy (id' i) then id' i else None) db"
  have m: "map Some ?ids = map id' db" using tr by (rule map_filter_truthy)
  then have "length ?ids = length db" by (metis length_map)
  with ne have ne': "?ids \<noteq> []" by auto
  have s: "Some ` set ?ids = set (map id' db)" using m by (metis set_map)
  have nid: "new_id db = Inr (Max (set ?ids) + 1)"
    using ne by (simp add: new_id_def py_max_Inr [OF ne'])
  have mem: "Max (set ?ids) \<in> set ?ids" using ne' by (simp add: Max_in)
  have ub: "\<forall>k \<in> set ?ids. k \<le> Max (set ?ids)" by simp
  from mem s have a: "Some (Max (set ?ids)) \<in> set (map id' db)" by blast
  from ub s have b: "\<forall>k. Some k \<in> set (map id' db) \<longrightarrow> k \<le> Max (set ?ids)" by blast
  from nid a b show ?thesis by blast
qed









section \<open>Preservation of the invariant\<close>

lemma pos_inv_truthy: "pos_inv db \<Longrightarrow> \<forall>it \<in> set db. truthy (id' it)"
  by (auto simp: pos_inv_def list_all_iff split: option.splits)

lemma pos_inv_pos: "pos_inv db \<Longrightarrow> Some k \<in> set (map id' db) \<Longrightarrow> 0 < k"
  by (auto simp: pos_inv_def list_all_iff split: option.splits)

lemma new_id_pos_inv:
  assumes "pos_inv db"
  shows "\<exists>n. new_id db = Inr n \<and> 0 < n \<and> Some n \<notin> set (map id' db)"
proof (cases "db = []")
  case True
  then show ?thesis by (simp add: new_id_empty)
next
  case False
  from new_id_truthy [OF False pos_inv_truthy [OF assms]]
  obtain m where m: "new_id db = Inr (m + 1)" "Some m \<in> set (map id' db)"
    "\<forall>k. Some k \<in> set (map id' db) \<longrightarrow> k \<le> m" by blast
  from pos_inv_pos [OF assms m(2)] have "0 < m + 1" by simp
  moreover from m(3) have "Some (m + 1) \<notin> set (map id' db)" by fastforce
  ultimately show ?thesis using m(1) by blast
qed

lemma pos_inv_create:
  assumes "pos_inv db"
  shows "pos_inv (snd (create_item db item))"
proof -
  from new_id_pos_inv [OF assms] obtain n where
    n: "new_id db = Inr n" "0 < n" "Some n \<notin> set (map id' db)" by blast
  with assms show ?thesis
    by (simp add: create_item_def Let_def pos_inv_def)
qed

lemma pos_inv_update:
  assumes "pos_inv db"
  shows "pos_inv (snd (update_item db item_id u))"
proof (cases "find_idx db item_id 0")
  case None
  with assms show ?thesis by (simp add: update_item_def)
next
  case (Some idx)
  from find_idx_0 [OF Some] have i: "idx < length db" "id' (db ! idx) = Some item_id"
    by auto
  have m: "map id' (db[idx := u\<lparr>id' := Some item_id\<rparr>]) = map id' db"
    using i by (simp add: map_update list_update_same_conv)
  from i have "Some item_id \<in> set (map id' db)" by (metis length_map nth_map nth_mem)
  from pos_inv_pos [OF assms this] have p: "0 < item_id" .
  have "list_all (\<lambda>i. case id' i of None \<Rightarrow> False | Some n \<Rightarrow> 0 < n)
          (db[idx := u\<lparr>id' := Some item_id\<rparr>])"
    using assms p i(1) unfolding pos_inv_def list_all_iff
    by (auto dest!: set_update_subset_insert [THEN subsetD])
  with assms m Some show ?thesis by (simp add: update_item_def Let_def pos_inv_def)
qed

lemma pos_inv_delete:
  assumes "pos_inv db"
  shows "pos_inv (snd (delete_item db item_id))"
proof (cases "find_idx db item_id 0")
  case None
  with assms show ?thesis by (simp add: delete_item_def)
next
  case (Some idx)
  have d: "distinct (map id' (take idx db @ drop (Suc idx) db))"
  proof -
    have "distinct (take idx (map id' db) @ drop (Suc idx) (map id' db))"
      using assms unfolding pos_inv_def
      by (simp add: set_take_disj_set_drop_if_distinct)
    then show ?thesis by (simp add: take_map drop_map)
  qed
  have "list_all (\<lambda>i. case id' i of None \<Rightarrow> False | Some n \<Rightarrow> 0 < n)
          (take idx db @ drop (Suc idx) db)"
    using assms unfolding pos_inv_def list_all_iff
    by (auto dest: in_set_takeD in_set_dropD)
  with d Some show ?thesis by (simp add: delete_item_def pop_def pos_inv_def)
qed

lemma pos_inv_handle:
  assumes p: "pos_inv db"
  shows "pos_inv (snd (handle db r))"
proof (cases r)
  case (List flt)
  with p show ?thesis by (simp add: get_items_def split: option.splits)
next
  case (Get i)
  with p show ?thesis by (simp add: get_item_def split: option.splits)
next
  case (Create body)
  show ?thesis
  proof (cases "validate_Item body")
    case (Inl e)
    with p Create show ?thesis by simp
  next
    case (Inr item)
    from pos_inv_create [OF p, of item] Inr Create show ?thesis
      by (simp add: snd_answer)
  qed
next
  case (Update i body)
  show ?thesis
  proof (cases "validate_Item body")
    case (Inl e)
    with p Update show ?thesis by simp
  next
    case (Inr item)
    from pos_inv_update [OF p, of i item] Inr Update show ?thesis
      by (simp add: snd_answer)
  qed
next
  case (Delete i)
  from pos_inv_delete [OF p, of i] Delete show ?thesis
    by (simp add: snd_answer)
qed

lemma pos_inv_run: "pos_inv db \<Longrightarrow> pos_inv (run db rs)"
  by (induction rs arbitrary: db) (auto simp: pos_inv_handle)

lemma pos_inv_items_db: "pos_inv items_db"
  by (simp add: pos_inv_def items_db_def)

lemma pos_inv_store_inv: "pos_inv db \<Longrightarrow> store_inv db"
  by (auto simp: pos_inv_def store_inv_def list_all_iff split: option.splits)

text \<open>No store that the requests produce from the seed records holds the id \<open>0\<close>.\<close>

lemma run_items_db_nonzero: "Some 0 \<notin> set (map id' (run items_db rs))"
  using pos_inv_pos [OF pos_inv_run [OF pos_inv_items_db], of 0 rs] by auto

section \<open>The store against its specification\<close>

subsection \<open>Create\<close>




subsection \<open>Error kinds\<close>




subsection \<open>The invariant on reachable stores\<close>

text \<open>
  C3. Starting from the three seed records, after any sequence of list, get, create,
  update and delete requests every item of the store has a non-null id and no two items
  share one.
\<close>

theorem reachable_store_inv: "store_inv (run items_db rs)"
  by (rule pos_inv_store_inv [OF pos_inv_run [OF pos_inv_items_db]])

theorem reachable_store_inv_witness:
  "store_inv (run items_db
     [Create monitor_body, Delete 2, Update 1 keyboard_body, Get 3, List None, Delete 4,
      Create keyboard_body])"
  using reachable_store_inv
    [of "[Create monitor_body, Delete 2, Update 1 keyboard_body, Get 3, List None, Delete 4,
          Create keyboard_body]"]
  by simp

subsection \<open>Absent ids\<close>

text \<open>
  C4. For an id that no stored item carries, get, update and delete each fail with
  NotFound, the 404 with detail \<^verbatim>\<open>Item non trouv\<close>\<open>\<dots>\<close>, and leave the store as it
  was.
\<close>

theorem absent_id_NotFound:
  assumes "\<forall>item \<in> set db. id' item \<noteq> Some item_id"
  shows "get_item db item_id = (Inl NotFound, db)
       \<and> update_item db item_id replacement = (Inl NotFound, db)
       \<and> delete_item db item_id = (Inl NotFound, db)
       \<and> NotFound = HTTPException 404 (''Item non trouv'' @ [CHR 0xC3, CHR 0xA9])"
proof -
  from assms have g: "get_item_loop db item_id = None" by (simp add: get_item_loop_None)
  from assms have f: "find_idx db item_id 0 = None" by (simp add: find_idx_None)
  show ?thesis
    by (simp add: get_item_def update_item_def delete_item_def NotFound_def
        detail_not_found_def g f)
qed

theorem absent_id_NotFound_witness:
  "Some 999 \<notin> set (map id' items_db)
   \<and> get_item items_db 999 = (Inl NotFound, items_db)
   \<and> update_item items_db 999 ghost_item = (Inl NotFound, items_db)
   \<and> delete_item items_db 999 = (Inl NotFound, items_db)"
  using absent_id_NotFound [of items_db 999 ghost_item] by (simp add: items_db_def)

subsection \<open>Update\<close>

text \<open>
  C5. When some stored item carries the given id, update puts the replacement, with its
  id set to the given id whatever id it came with, at the position of the first such
  item, leaves the rest of the list in place, and returns the item it stored.
\<close>

theorem update_item_replaces:
  assumes "\<exists>item \<in> set db. id' item = Some item_id"
  shows "\<exists>idx < length db. id' (db ! idx) = Some item_id
       \<and> (\<forall>j < idx. id' (db ! j) \<noteq> Some item_id)
       \<and> update_item db item_id replacement =
           (Inr (replacement\<lparr>id' := Some item_id\<rparr>),
            db[idx := replacement\<lparr>id' := Some item_id\<rparr>])"
proof -
  from assms obtain n where n: "find_idx db item_id 0 = Some n" by (rule find_idx_present)
  from find_idx_0 [OF n] n show ?thesis by (auto simp: update_item_def Let_def)
qed

theorem update_item_replaces_witness:
  "Some 2 \<in> set (map id' items_db)
   \<and> id' ghost_item = Some 77
   \<and> update_item items_db 2 ghost_item =
       (Inr (ghost_item\<lparr>id' := Some 2\<rparr>),
        [items_db ! 0, ghost_item\<lparr>id' := Some 2\<rparr>, items_db ! 2])"
  using update_item_replaces [of items_db 2 ghost_item]
  by (auto simp: items_db_def ghost_item_def less_Suc_eq)

subsection \<open>List\<close>

text \<open>
  C6. List with the filter \<open>b\<close> returns the stored items whose \<open>in_stock\<close> equals \<open>b\<close>, in
  the order of the store, a subsequence of it; list without a filter returns the store.
\<close>

theorem get_items_filter:
  "get_items db (Some b) = (Inr (filter (\<lambda>item. in_stock item = b) db), db)
   \<and> subseq (filter (\<lambda>item. in_stock item = b) db) db
   \<and> get_items db None = (Inr db, db)"
  by (simp add: get_items_def comprehension_filter)

subsection \<open>Create, then get\<close>




subsection \<open>Full replacement\<close>

text \<open>
  C8. An update request whose body has a name and a price and leaves \<open>in_stock\<close> out
  stores, at the position of the first item with the given id, an item whose \<open>in_stock\<close>
  is true, whatever the stored value was.
\<close>

theorem update_omitting_in_stock:
  assumes "\<exists>item \<in> set db. id' item = Some item_id"
    and "p_name body = Some n" and "p_price body = Some pr" and "p_in_stock body = None"
  shows "\<exists>idx < length db. id' (db ! idx) = Some item_id
       \<and> (\<forall>j < idx. id' (db ! j) \<noteq> Some item_id)
       \<and> handle db (Update item_id body) =
           (Inr (OneItem \<lparr>id' = Some item_id, name = n, description = p_description body,
                          price = pr, in_stock = True\<rparr>),
            db[idx := \<lparr>id' = Some item_id, name = n, description = p_description body,
                       price = pr, in_stock = True\<rparr>])"
proof -
  from assms(2-4) have v: "validate_Item body =
      Inr \<lparr>id' = p_id body, name = n, description = p_description body, price = pr,
           in_stock = True\<rparr>"
    by (simp add: validate_Item_def)
  from assms(1) obtain k where k: "find_idx db item_id 0 = Some k"
    by (rule find_idx_present)
  from find_idx_0 [OF k] k show ?thesis by (auto simp: v update_item_def Let_def)
qed

theorem update_omitting_in_stock_witness:
  "Some 3 \<in> set (map id' items_db) \<and> p_name keyboard_body = Some ''Keyboard''
   \<and> p_price keyboard_body = Some 120 \<and> p_in_stock keyboard_body = None
   \<and> in_stock (items_db ! 2) = False
   \<and> handle items_db (Update 3 keyboard_body) =
       (Inr (OneItem \<lparr>id' = Some 3, name = ''Keyboard'', description = None, price = 120,
                      in_stock = True\<rparr>),
        [items_db ! 0, items_db ! 1,
         \<lparr>id' = Some 3, name = ''Keyboard'', description = None, price = 120,
          in_stock = True\<rparr>])"
  using update_omitting_in_stock [of items_db 3 keyboard_body "''Keyboard''" 120]
  by (auto simp: items_db_def keyboard_body_def less_Suc_eq)

subsection \<open>Delete\<close>

text \<open>
  C9. When some stored item carries the given id, delete removes the first such item and
  nothing else: the store is one shorter, and the items before and after the removed one
  follow each other unchanged in their old order.
\<close>

theorem delete_item_removes_first:
  assumes "\<exists>item \<in> set db. id' item = Some item_id"
  shows "\<exists>idx < length db. id' (db ! idx) = Some item_id
       \<and> (\<forall>j < idx. id' (db ! j) \<noteq> Some item_id)
       \<and> delete_item db item_id =
           (Inr (delete_message item_id), take idx db @ drop (Suc idx) db)
       \<and> length (snd (delete_item db item_id)) + 1 = length db"
proof -
  from assms obtain n where n: "find_idx db item_id 0 = Some n" by (rule find_idx_present)
  from find_idx_0 [OF n] n show ?thesis by (auto simp: delete_item_def pop_def)
qed

theorem delete_item_removes_first_witness:
  "Some 2 \<in> set (map id' items_db)
   \<and> delete_item items_db 2 = (Inr (delete_message 2), [items_db ! 0, items_db ! 2])
   \<and> length (snd (delete_item items_db 2)) = 2"
  using delete_item_removes_first [of items_db 2]
  by (auto simp: items_db_def less_Suc_eq)

subsection \<open>Reads\<close>

text \<open>
  C10. List, with any filter or none, and get, for any id, stored or not, leave the store
  exactly as it was.
\<close>

theorem reads_leave_store:
  "snd (get_items db flt) = db \<and> snd (get_item db item_id) = db
   \<and> snd (handle db (List flt)) = db \<and> snd (handle db (Get item_id)) = db"
  by (simp add: get_items_def get_item_def snd_answer split: option.splits)


end
